theory Spec2Isabelle
  imports Main
begin

section \<open>Data model\<close>

text \<open>
  The backing store is a relational database reached through Prisma. Every table is a list
  of rows in insertion order. Identifiers and dates are integers (a date is its number of
  milliseconds since the epoch, as \<^verbatim>\<open>Date\<close> holds it).
\<close>

text \<open>
  Modelled from the spec: the enum \<^verbatim>\<open>Role\<close> of
  \<^verbatim>\<open>src/authentication/enum/role.enum\<close> is not among the sources; the data model
  gives its two values.
\<close>

datatype Role = Admin | User

record Users =
  u_id :: int
  firstName :: string
  lastName :: string
  email :: string
  password :: string
  role :: Role
  is_private :: bool
  profile_picture :: string

record RefreshToken =
  rt_id :: int
  rt_token :: string
  rt_userId :: int
  rt_expiryDate :: int

record ResetToken =
  rs_token :: string
  rs_userId :: int
  rs_expiryDate :: int

record FollowRequests =
  fr_id :: int
  requesterId :: int
  targetId :: int

record Followers =
  followerId :: int
  followingId :: int

text \<open>
  The state: the five tables, the counters behind the auto-incremented identifiers the
  code reads back (\<^verbatim>\<open>user.id\<close>, \<^verbatim>\<open>fetchRefreshToken.id\<close>,
  \<^verbatim>\<open>request.id\<close>), and the messages handed to the mail service.
\<close>

record state =
  users :: "Users list"
  users_seq :: int
  refreshToken :: "RefreshToken list"
  refreshToken_seq :: int
  resetToken :: "ResetToken list"
  followRequests :: "FollowRequests list"
  followRequests_seq :: int
  followers :: "Followers list"
  sentMail :: "(string \<times> string) list"

text \<open>
  The exceptions of the code, as values. \<open>PrismaClientKnownRequestError\<close> is what the
  store itself throws (a violated unique constraint, a row to delete or update that is not
  there); \<open>InternalServerErrorException\<close> carries the exception it was built from.
\<close>

datatype error =
    ConflictException string
  | UnauthorizedException string
  | NotFoundException string
  | BadRequestException string
  | PrismaClientKnownRequestError string
  | InternalServerErrorException error

section \<open>The store's operations\<close>

definition users_findUnique_id :: "state \<Rightarrow> int \<Rightarrow> Users option" where
  "users_findUnique_id s i = find (\<lambda>u. u_id u = i) (users s)"

definition followers_match :: "int \<Rightarrow> int \<Rightarrow> Followers \<Rightarrow> bool" where
  "followers_match fol fing f \<longleftrightarrow> followerId f = fol \<and> followingId f = fing"

definition followRequests_match :: "int \<Rightarrow> int \<Rightarrow> FollowRequests \<Rightarrow> bool" where
  "followRequests_match req tgt r \<longleftrightarrow> requesterId r = req \<and> targetId r = tgt"

text \<open>
  \<^verbatim>\<open>findUnique({ where: { followerId_followingId: ... } })\<close>: the pair is a unique key of
  the table, so \<^verbatim>\<open>create\<close> refuses a second row with the same pair.
\<close>

definition followers_findUnique :: "state \<Rightarrow> int \<Rightarrow> int \<Rightarrow> Followers option" where
  "followers_findUnique s fol fing = find (followers_match fol fing) (followers s)"

definition followers_create :: "int \<Rightarrow> int \<Rightarrow> state \<Rightarrow> error + state" where
  "followers_create fol fing s =
     (if \<exists>f \<in> set (followers s). followers_match fol fing f
      then Inl (PrismaClientKnownRequestError ''P2002'')
      else Inr (s\<lparr>followers := followers s @ [\<lparr>followerId = fol, followingId = fing\<rparr>]\<rparr>))"

text \<open>
  The identifiers are columns of type \<^verbatim>\<open>Int\<close>, a signed 32-bit integer in the store.
  \<^verbatim>\<open>followers.deleteMany({ where: { followerId, followingId } })\<close> with a value
  outside that range is refused by the store (\<^verbatim>\<open>P2020\<close>, value out of range for
  the type); within it, every matching row is deleted and the call succeeds, also when no
  row matches.
\<close>

definition in_Int_range :: "int \<Rightarrow> bool" where
  "in_Int_range i \<longleftrightarrow> - 2147483648 \<le> i \<and> i \<le> 2147483647"

definition followers_deleteMany :: "int \<Rightarrow> int \<Rightarrow> state \<Rightarrow> error + state" where
  "followers_deleteMany fol fing s =
     (if in_Int_range fol \<and> in_Int_range fing
      then Inr (s\<lparr>followers := filter (\<lambda>f. \<not> followers_match fol fing f) (followers s)\<rparr>)
      else Inl (PrismaClientKnownRequestError ''P2020''))"

definition followRequests_findUnique :: "state \<Rightarrow> int \<Rightarrow> int \<Rightarrow> FollowRequests option" where
  "followRequests_findUnique s req tgt = find (followRequests_match req tgt) (followRequests s)"

definition followRequests_findFirst :: "state \<Rightarrow> int \<Rightarrow> int \<Rightarrow> FollowRequests option" where
  "followRequests_findFirst s req tgt = find (followRequests_match req tgt) (followRequests s)"

definition followRequests_create :: "int \<Rightarrow> int \<Rightarrow> state \<Rightarrow> error + state" where
  "followRequests_create req tgt s =
     (if \<exists>r \<in> set (followRequests s). followRequests_match req tgt r
      then Inl (PrismaClientKnownRequestError ''P2002'')
      else Inr (s\<lparr>followRequests := followRequests s @
                    [\<lparr>fr_id = followRequests_seq s + 1, requesterId = req, targetId = tgt\<rparr>],
                  followRequests_seq := followRequests_seq s + 1\<rparr>))"

definition followRequests_delete :: "int \<Rightarrow> state \<Rightarrow> error + state" where
  "followRequests_delete i s =
     (if \<exists>r \<in> set (followRequests s). fr_id r = i
      then Inr (s\<lparr>followRequests := filter (\<lambda>r. fr_id r \<noteq> i) (followRequests s)\<rparr>)
      else Inl (PrismaClientKnownRequestError ''P2025''))"

text \<open>
  \<^verbatim>\<open>$transaction([...])\<close>: the operations run in order on the state; the first failure
  is the result, and the caller then keeps the state it started from.
\<close>

fun transaction :: "(state \<Rightarrow> error + state) list \<Rightarrow> state \<Rightarrow> error + state" where
  "transaction [] s = Inr s"
| "transaction (f # fs) s = (case f s of Inl e \<Rightarrow> Inl e | Inr s' \<Rightarrow> transaction fs s')"

section \<open>ProfileService: the follow state machine\<close>

text \<open>
  Every method of the follow state machine is one \<^verbatim>\<open>try\<close> block whose
  \<^verbatim>\<open>catch (error)\<close> throws \<^verbatim>\<open>new InternalServerErrorException(error)\<close>. The
  function with suffix \<open>_try\<close> is the block; \<open>catch_rethrow\<close> is the handler.
\<close>

definition catch_rethrow :: "(error + 'a) \<times> state \<Rightarrow> (error + 'a) \<times> state" where
  "catch_rethrow r =
     (case fst r of Inl e \<Rightarrow> (Inl (InternalServerErrorException e), snd r)
                  | Inr v \<Rightarrow> (Inr v, snd r))"

definition requestToFollow_try :: "int \<Rightarrow> int \<Rightarrow> state \<Rightarrow> (error + string) \<times> state" where
  "requestToFollow_try tgt userId s =
     (case users_findUnique_id s tgt of
        None \<Rightarrow> (Inl (NotFoundException ''User not found''), s)
      | Some targetUser \<Rightarrow>
          if \<not> is_private targetUser then
            (case followers_findUnique s userId tgt of
               Some existingFollow \<Rightarrow>
                 (Inl (BadRequestException ''You are already following this user.''), s)
             | None \<Rightarrow>
                 (case followers_create userId tgt s of
                    Inl e \<Rightarrow> (Inl e, s)
                  | Inr s' \<Rightarrow> (Inr ''You are now following this user.'', s')))
          else
            (case followRequests_findUnique s userId tgt of
               Some existingRequest \<Rightarrow> (Inl (BadRequestException ''Follow request already sent.''), s)
             | None \<Rightarrow>
                 (case followRequests_create userId tgt s of
                    Inl e \<Rightarrow> (Inl e, s)
                  | Inr s' \<Rightarrow> (Inr ''Follow request sent.'', s'))))"

definition requestToFollow :: "int \<Rightarrow> int \<Rightarrow> state \<Rightarrow> (error + string) \<times> state" where
  "requestToFollow tgt userId s = catch_rethrow (requestToFollow_try tgt userId s)"

definition acceptFollowRequest_try :: "int \<Rightarrow> int \<Rightarrow> state \<Rightarrow> (error + string) \<times> state" where
  "acceptFollowRequest_try tgt userId s =
     (case followRequests_findUnique s userId tgt of
        None \<Rightarrow> (Inl (BadRequestException ''No follow request found.''), s)
      | Some request \<Rightarrow>
          (case transaction [followers_create userId tgt,
                             followRequests_delete (fr_id request)] s of
             Inl e \<Rightarrow> (Inl e, s)
           | Inr s' \<Rightarrow> (Inr ''Follow request accepted.'', s')))"

definition acceptFollowRequest :: "int \<Rightarrow> int \<Rightarrow> state \<Rightarrow> (error + string) \<times> state" where
  "acceptFollowRequest tgt userId s = catch_rethrow (acceptFollowRequest_try tgt userId s)"

definition cancelFollowRequest_try :: "int \<Rightarrow> int \<Rightarrow> state \<Rightarrow> (error + string) \<times> state" where
  "cancelFollowRequest_try req tgt s =
     (case followRequests_findFirst s req tgt of
        None \<Rightarrow> (Inl (BadRequestException ''No follow request found.''), s)
      | Some followRequest \<Rightarrow>
          (case followRequests_delete (fr_id followRequest) s of
             Inl e \<Rightarrow> (Inl e, s)
           | Inr s' \<Rightarrow> (Inr ''Follow request canceled successfully.'', s')))"

definition cancelFollowRequest :: "int \<Rightarrow> int \<Rightarrow> state \<Rightarrow> (error + string) \<times> state" where
  "cancelFollowRequest req tgt s = catch_rethrow (cancelFollowRequest_try req tgt s)"

definition unfollowUser_try :: "int \<Rightarrow> int \<Rightarrow> state \<Rightarrow> (error + string) \<times> state" where
  "unfollowUser_try tgt userId s =
     (case followers_deleteMany userId tgt s of
        Inl e \<Rightarrow> (Inl e, s)
      | Inr s' \<Rightarrow> (Inr ''Unfollowed successfully.'', s'))"

definition unfollowUser :: "int \<Rightarrow> int \<Rightarrow> state \<Rightarrow> (error + string) \<times> state" where
  "unfollowUser tgt userId s = catch_rethrow (unfollowUser_try tgt userId s)"

section \<open>AuthenticationService\<close>

text \<open>
  What the service takes from outside the repository: bcrypt (the salt that
  \<^verbatim>\<open>bcrypt.hash\<close> draws is an argument), the JWT service (the payload's user and the
  instant of signing are arguments; the lifetime is the constant \<^verbatim>\<open>'1h'\<close>), and the
  environment variable \<^verbatim>\<open>SALT_ROUNDS\<close>. The column \<^verbatim>\<open>is_private\<close> is not
  written by \<^verbatim>\<open>users.create\<close>; its default belongs to the schema, which is not among
  the sources, and is a parameter here. \<open>setDate_plus now d\<close> is the instant that
  \<^verbatim>\<open>expiryDate.setDate(expiryDate.getDate() + d)\<close> gives from \<open>now\<close>: the same
  local time \<open>d\<close> days later on the calendar of the host, which is not \<open>d\<close> times 24
  hours across a change of daylight-saving time.
\<close>

record env =
  bcrypt_hash :: "string \<Rightarrow> nat \<Rightarrow> string \<Rightarrow> string"
  bcrypt_compare :: "string \<Rightarrow> string \<Rightarrow> bool"
  jwt_sign :: "int \<Rightarrow> int \<Rightarrow> string"
  SALT_ROUNDS :: "nat option"
  is_private_default :: bool
  setDate_plus :: "int \<Rightarrow> int \<Rightarrow> int"

definition saltRounds :: "env \<Rightarrow> nat" where
  "saltRounds e = (case SALT_ROUNDS e of Some n \<Rightarrow> n | None \<Rightarrow> 10)"

record RegisterDTO =
  reg_firstName :: string
  reg_lastName :: string
  reg_email :: string
  reg_password :: string
  reg_role :: Role

record LoginDTO =
  login_email :: string
  login_password :: string

record ChangePasswordDTO =
  oldPassword :: string
  newPassword :: string

record ResetPasswordDTO =
  reset_resetToken :: string
  reset_newPassword :: string

text \<open>A user row without its \<^verbatim>\<open>password\<close>: \<^verbatim>\<open>const { password: _, ...result } = user\<close>.\<close>

record UsersResult =
  res_id :: int
  res_firstName :: string
  res_lastName :: string
  res_email :: string
  res_role :: Role
  res_is_private :: bool
  res_profile_picture :: string

definition omit_password :: "Users \<Rightarrow> UsersResult" where
  "omit_password u =
     \<lparr>res_id = u_id u, res_firstName = firstName u, res_lastName = lastName u,
      res_email = email u, res_role = role u, res_is_private = is_private u,
      res_profile_picture = profile_picture u\<rparr>"

record Tokens =
  accessToken :: string
  newRefreshToken :: string

record LoginResult =
  login_user :: UsersResult
  login_tokens :: Tokens

subsection \<open>The store's operations on users and tokens\<close>

definition users_findUnique_email :: "state \<Rightarrow> string \<Rightarrow> Users option" where
  "users_findUnique_email s e = find (\<lambda>u. email u = e) (users s)"

text \<open>
  \<^verbatim>\<open>users.create\<close>: \<^verbatim>\<open>email\<close> is a unique key (the code looks users up by it with
  \<^verbatim>\<open>findUnique\<close>); the identifier comes from the table's counter.
\<close>

definition users_create ::
  "string \<Rightarrow> string \<Rightarrow> string \<Rightarrow> string \<Rightarrow> Role \<Rightarrow> string \<Rightarrow> bool \<Rightarrow> state
     \<Rightarrow> error + (Users \<times> state)" where
  "users_create fn ln em pw rl pic priv s =
     (if \<exists>u \<in> set (users s). email u = em
      then Inl (PrismaClientKnownRequestError ''P2002'')
      else let newUser = \<lparr>u_id = users_seq s + 1, firstName = fn, lastName = ln, email = em,
                           password = pw, role = rl, is_private = priv,
                           profile_picture = pic\<rparr>
           in Inr (newUser, s\<lparr>users := users s @ [newUser], users_seq := users_seq s + 1\<rparr>))"

definition users_update_password :: "int \<Rightarrow> string \<Rightarrow> state \<Rightarrow> error + state" where
  "users_update_password i pw s =
     (if \<exists>u \<in> set (users s). u_id u = i
      then Inr (s\<lparr>users := map (\<lambda>u. if u_id u = i then u\<lparr>password := pw\<rparr> else u) (users s)\<rparr>)
      else Inl (PrismaClientKnownRequestError ''P2025''))"

text \<open>
  \<^verbatim>\<open>refreshToken.upsert({ where: { userId }, update, create })\<close>: the row of the user is
  overwritten if there is one, and created otherwise.
\<close>

definition refreshToken_upsert :: "int \<Rightarrow> string \<Rightarrow> int \<Rightarrow> state \<Rightarrow> state" where
  "refreshToken_upsert uid tok expiry s =
     (if \<exists>r \<in> set (refreshToken s). rt_userId r = uid
      then s\<lparr>refreshToken :=
               map (\<lambda>r. if rt_userId r = uid then r\<lparr>rt_token := tok, rt_expiryDate := expiry\<rparr>
                         else r) (refreshToken s)\<rparr>
      else s\<lparr>refreshToken := refreshToken s @
                 [\<lparr>rt_id = refreshToken_seq s + 1, rt_token = tok, rt_userId = uid,
                   rt_expiryDate = expiry\<rparr>],
               refreshToken_seq := refreshToken_seq s + 1\<rparr>)"

definition refreshToken_findFirst :: "state \<Rightarrow> string \<Rightarrow> int \<Rightarrow> RefreshToken option" where
  "refreshToken_findFirst s tok now =
     find (\<lambda>r. rt_token r = tok \<and> now \<le> rt_expiryDate r) (refreshToken s)"

definition refreshToken_update_row :: "int \<Rightarrow> string \<Rightarrow> int \<Rightarrow> state \<Rightarrow> error + state" where
  "refreshToken_update_row i tok expiry s =
     (if \<exists>r \<in> set (refreshToken s). rt_id r = i
      then Inr (s\<lparr>refreshToken :=
                    map (\<lambda>r. if rt_id r = i then r\<lparr>rt_token := tok, rt_expiryDate := expiry\<rparr>
                              else r) (refreshToken s)\<rparr>)
      else Inl (PrismaClientKnownRequestError ''P2025''))"

definition resetToken_create :: "string \<Rightarrow> int \<Rightarrow> int \<Rightarrow> state \<Rightarrow> state" where
  "resetToken_create tok uid expiry s =
     s\<lparr>resetToken := resetToken s @
          [\<lparr>rs_token = tok, rs_userId = uid, rs_expiryDate = expiry\<rparr>]\<rparr>"

definition resetToken_findFirst :: "state \<Rightarrow> string \<Rightarrow> int \<Rightarrow> ResetToken option" where
  "resetToken_findFirst s tok now =
     find (\<lambda>r. rs_token r = tok \<and> now \<le> rs_expiryDate r) (resetToken s)"

definition sendPasswordResetEmail :: "string \<Rightarrow> string \<Rightarrow> state \<Rightarrow> state" where
  "sendPasswordResetEmail em tok s = s\<lparr>sentMail := sentMail s @ [(em, tok)]\<rparr>"

subsection \<open>The service\<close>

text \<open>
  Each method takes the instant \<open>now\<close> its clock reads give and the random string it
  draws (\<open>salt\<close> for bcrypt, \<open>uuid\<close> for \<^verbatim>\<open>uuIdv4()\<close>, \<open>nano\<close> for
  \<^verbatim>\<open>nanoid(64)\<close>). Nothing is caught: an exception is the result as thrown.
\<close>

definition three_days :: int where
  "three_days = 3 * 24 * 60 * 60 * 1000"

definition one_hour :: int where
  "one_hour = 60 * 60 * 1000"

definition register ::
  "env \<Rightarrow> string \<Rightarrow> RegisterDTO \<Rightarrow> state \<Rightarrow> (error + UsersResult) \<times> state" where
  "register e salt registerDto s =
     (case users_findUnique_email s (reg_email registerDto) of
        Some existingUser \<Rightarrow> (Inl (ConflictException ''User already exists''), s)
      | None \<Rightarrow>
          let hashedPassword = bcrypt_hash e (reg_password registerDto) (saltRounds e) salt
          in (case users_create (reg_firstName registerDto) (reg_lastName registerDto)
                     (reg_email registerDto) hashedPassword (reg_role registerDto) []
                     (is_private_default e) s of
                Inl err \<Rightarrow> (Inl err, s)
              | Inr (newUser, s') \<Rightarrow> (Inr (omit_password newUser), s')))"

definition generateUserTokens :: "env \<Rightarrow> int \<Rightarrow> string \<Rightarrow> int \<Rightarrow> Tokens" where
  "generateUserTokens e now uuid userId =
     \<lparr>accessToken = jwt_sign e userId now, newRefreshToken = uuid\<rparr>"

definition login ::
  "env \<Rightarrow> int \<Rightarrow> string \<Rightarrow> LoginDTO \<Rightarrow> state \<Rightarrow> (error + LoginResult) \<times> state" where
  "login e now uuid loginDto s =
     (case users_findUnique_email s (login_email loginDto) of
        None \<Rightarrow> (Inl (UnauthorizedException ''Invalid credentials''), s)
      | Some user \<Rightarrow>
          if \<not> bcrypt_compare e (login_password loginDto) (password user)
          then (Inl (UnauthorizedException ''Invalid credentials''), s)
          else
            let toks = generateUserTokens e now uuid (u_id user);
                expiryDate = setDate_plus e now 3;
                s' = refreshToken_upsert (u_id user) (newRefreshToken toks) expiryDate s
            in (Inr \<lparr>login_user = omit_password user, login_tokens = toks\<rparr>, s'))"

definition refreshTokens ::
  "env \<Rightarrow> int \<Rightarrow> string \<Rightarrow> string \<Rightarrow> state \<Rightarrow> (error + Tokens) \<times> state" where
  "refreshTokens e now uuid token s =
     (case refreshToken_findFirst s token now of
        None \<Rightarrow> (Inl (UnauthorizedException ''Invalid or expired refresh token''), s)
      | Some fetchRefreshToken \<Rightarrow>
          let toks = generateUserTokens e now uuid (rt_userId fetchRefreshToken)
          in (case refreshToken_update_row (rt_id fetchRefreshToken) (newRefreshToken toks)
                     (now + three_days) s of
                Inl err \<Rightarrow> (Inl err, s)
              | Inr s' \<Rightarrow> (Inr toks, s')))"

definition changePassword ::
  "env \<Rightarrow> string \<Rightarrow> int \<Rightarrow> ChangePasswordDTO \<Rightarrow> state \<Rightarrow> (error + string) \<times> state" where
  "changePassword e salt userId changePasswordDto s =
     (case users_findUnique_id s userId of
        None \<Rightarrow> (Inl (NotFoundException ''User not found''), s)
      | Some user \<Rightarrow>
          if \<not> bcrypt_compare e (oldPassword changePasswordDto) (password user)
          then (Inl (UnauthorizedException ''Wrong credentials''), s)
          else
            let newHashedPassword =
                  bcrypt_hash e (newPassword changePasswordDto) (saltRounds e) salt
            in (case users_update_password userId newHashedPassword s of
                  Inl err \<Rightarrow> (Inl err, s)
                | Inr s' \<Rightarrow> (Inr ''Password changed'', s')))"

definition forgotPassword :: "int \<Rightarrow> string \<Rightarrow> string \<Rightarrow> state \<Rightarrow> (error + string) \<times> state" where
  "forgotPassword now nano em s =
     (let s' = (case users_findUnique_email s em of
                  Some user \<Rightarrow>
                    let expiryDate = now + one_hour;
                        resetToken = nano
                    in sendPasswordResetEmail em resetToken
                         (resetToken_create resetToken (u_id user) expiryDate s)
                | None \<Rightarrow> s)
      in (Inr ''If user exists, they will receive an email'', s'))"

definition resetPassword ::
  "env \<Rightarrow> int \<Rightarrow> string \<Rightarrow> ResetPasswordDTO \<Rightarrow> state \<Rightarrow> (error + string) \<times> state" where
  "resetPassword e now salt resetPasswordDto s =
     (case resetToken_findFirst s (reset_resetToken resetPasswordDto) now of
        None \<Rightarrow> (Inl (UnauthorizedException ''Invalid link''), s)
      | Some token \<Rightarrow>
          (case users_findUnique_id s (rs_userId token) of
             None \<Rightarrow> (Inl (NotFoundException ''User not found''), s)
           | Some user \<Rightarrow>
               let hashedPassword =
                     bcrypt_hash e (reset_newPassword resetPasswordDto) (saltRounds e) salt
               in (case users_update_password (u_id user) hashedPassword s of
                     Inl err \<Rightarrow> (Inl err, s)
                   | Inr s' \<Rightarrow> (Inr ''Password reset successfully.'', s'))))"

text \<open>
  AuthenticationController: \<^verbatim>\<open>register\<close> carries no guard, so the bearer token of the
  request, present or not, plays no part; \<^verbatim>\<open>changePassword\<close> is behind
  \<^verbatim>\<open>JwtAuthGuard\<close>, which is outside the sources.
\<close>

definition controller_register ::
  "env \<Rightarrow> string \<Rightarrow> string option \<Rightarrow> RegisterDTO \<Rightarrow> state \<Rightarrow> (error + UsersResult) \<times> state" where
  "controller_register e salt authorization registerDto s = register e salt registerDto s"

section \<open>A small concrete store\<close>

text \<open>
  Three users: alice (1, public), bob (2, private) and carol (3, public). alice follows
  carol and has asked to follow bob; she holds one refresh token and two reset tokens.
  bcrypt and the JWT service are stood in for by string functions of the same shape.
\<close>

definition example_env :: env where
  "example_env =
     \<lparr>bcrypt_hash = (\<lambda>p r sl. ''$2b$'' @ sl @ ''$'' @ p),
      bcrypt_compare = (\<lambda>p h. take 4 h = ''$2b$'' \<and> drop 7 h = p),
      jwt_sign = (\<lambda>uid now. ''jwt''),
      SALT_ROUNDS = None,
      is_private_default = False,
      setDate_plus = (\<lambda>now days. now + days * (24 * 60 * 60 * 1000))\<rparr>"

definition alice :: Users where
  "alice = \<lparr>u_id = 1, firstName = ''Alice'', lastName = ''A'', email = ''alice@x.org'',
             password = ''$2b$s1$wonderland'', role = User, is_private = False,
             profile_picture = []\<rparr>"

definition bob :: Users where
  "bob = \<lparr>u_id = 2, firstName = ''Bob'', lastName = ''B'', email = ''bob@x.org'',
           password = ''$2b$s2$builder'', role = User, is_private = True,
           profile_picture = []\<rparr>"

definition carol :: Users where
  "carol = \<lparr>u_id = 3, firstName = ''Carol'', lastName = ''C'', email = ''carol@x.org'',
             password = ''$2b$s3$singing'', role = Admin, is_private = False,
             profile_picture = []\<rparr>"

definition example_state :: state where
  "example_state =
     \<lparr>users = [alice, bob, carol],
      users_seq = 3,
      refreshToken = [\<lparr>rt_id = 1, rt_token = ''rt-alice'', rt_userId = 1, rt_expiryDate = 1000\<rparr>],
      refreshToken_seq = 1,
      resetToken = [\<lparr>rs_token = ''reset-1'', rs_userId = 1, rs_expiryDate = 1000\<rparr>,
                    \<lparr>rs_token = ''reset-2'', rs_userId = 1, rs_expiryDate = 2000\<rparr>],
      followRequests = [\<lparr>fr_id = 1, requesterId = 1, targetId = 2\<rparr>],
      followRequests_seq = 1,
      followers = [\<lparr>followerId = 1, followingId = 3\<rparr>],
      sentMail = []\<rparr>"

section \<open>Observations on a state\<close>

text \<open>The number of rows of each edge table for an ordered pair.\<close>

definition count_followers :: "state \<Rightarrow> int \<Rightarrow> int \<Rightarrow> nat" where
  "count_followers s fol fing = length (filter (followers_match fol fing) (followers s))"

definition count_followRequests :: "state \<Rightarrow> int \<Rightarrow> int \<Rightarrow> nat" where
  "count_followRequests s req tgt =
     length (filter (followRequests_match req tgt) (followRequests s))"

text \<open>
  The unique key \<^verbatim>\<open>requesterId_targetId\<close> of the follow requests: no two rows for
  the same ordered pair. \<open>followRequests_create\<close> keeps it.
\<close>

definition followRequests_unique :: "state \<Rightarrow> bool" where
  "followRequests_unique s \<longleftrightarrow>
     distinct (map (\<lambda>r. (requesterId r, targetId r)) (followRequests s))"

text \<open>The refresh-token rows that hold a given value.\<close>

definition holders :: "state \<Rightarrow> string \<Rightarrow> RefreshToken list" where
  "holders s t = filter (\<lambda>r. rt_token r = t) (refreshToken s)"

text \<open>
  The refresh-token table as the service keeps it: identifiers below the counter and
  pairwise distinct, one row per user, and no value held twice (the values are drawn by
  \<^verbatim>\<open>uuIdv4()\<close>).
\<close>

definition refreshToken_inv :: "state \<Rightarrow> bool" where
  "refreshToken_inv s \<longleftrightarrow>
     distinct (map rt_id (refreshToken s)) \<and>
     list_all (\<lambda>r. rt_id r \<le> refreshToken_seq s) (refreshToken s) \<and>
     distinct (map rt_userId (refreshToken s)) \<and>
     distinct (map rt_token (refreshToken s))"

text \<open>bcrypt never returns the password it was given.\<close>

definition bcrypt_no_fixed_point :: "env \<Rightarrow> bool" where
  "bcrypt_no_fixed_point e \<longleftrightarrow> (\<forall>p r sl. bcrypt_hash e p r sl \<noteq> p)"

section \<open>Auxiliary facts\<close>

lemmas example_defs = example_state_def alice_def bob_def carol_def example_env_def

lemma find_None_filter: "find P xs = None \<Longrightarrow> filter P xs = []"
  by (induction xs) (auto split: if_splits)

lemma find_Some_mem: "find P xs = Some x \<Longrightarrow> x \<in> set xs \<and> P x"
  by (induction xs) (auto split: if_splits)

lemma find_map_id:
  fixes f :: "Users \<Rightarrow> Users"
  assumes "\<And>u. u_id (f u) = u_id u"
  shows "find (\<lambda>u. u_id u = i) (map f xs) = map_option f (find (\<lambda>u. u_id u = i) xs)"
  using assms by (induction xs) auto

lemma filter_le1_eq:
  assumes "length (filter P xs) \<le> 1" and "x \<in> set xs" and "P x" and "y \<in> set xs" and "P y"
  shows "y = x"
proof -
  have "x \<in> set (filter P xs)" "y \<in> set (filter P xs)" using assms by simp_all
  moreover obtain z where "filter P xs = [z]"
    using assms(1) \<open>x \<in> set (filter P xs)\<close>
    by (cases "filter P xs") (auto simp: Suc_le_eq)
  ultimately show ?thesis by simp
qed

lemma unique_pair_filter:
  assumes d: "distinct (map (\<lambda>r. (requesterId r, targetId r)) rs)"
    and x: "x \<in> set rs" and mx: "followRequests_match a b x"
  shows "filter (followRequests_match a b) (filter (\<lambda>r. fr_id r \<noteq> fr_id x) rs) = []"
proof -
  have inj: "inj_on (\<lambda>r. (requesterId r, targetId r)) (set rs)"
    using d by (simp add: distinct_map)
  have "y = x" if y: "y \<in> set rs" and my: "followRequests_match a b y" for y
  proof -
    have "(requesterId y, targetId y) = (requesterId x, targetId x)"
      using mx my by (simp add: followRequests_match_def)
    with inj x y show "y = x" by (auto dest: inj_onD)
  qed
  then show ?thesis by (auto simp: filter_empty_conv)
qed

section \<open>The follow state machine\<close>

lemma requestToFollow_fresh:
  assumes tgt: "users_findUnique_id s t = Some targetUser"
    and nof: "followers_findUnique s u t = None"
    and nor: "followRequests_findUnique s u t = None"
  shows "requestToFollow t u s =
           (if is_private targetUser
            then (Inr ''Follow request sent.'',
                  s\<lparr>followRequests := followRequests s @
                       [\<lparr>fr_id = followRequests_seq s + 1, requesterId = u, targetId = t\<rparr>],
                    followRequests_seq := followRequests_seq s + 1\<rparr>)
            else (Inr ''You are now following this user.'',
                  s\<lparr>followers := followers s @ [\<lparr>followerId = u, followingId = t\<rparr>]\<rparr>))"
proof -
  have a: "\<not> (\<exists>f \<in> set (followers s). followers_match u t f)"
    using nof by (simp add: followers_findUnique_def find_None_iff)
  have b: "\<not> (\<exists>r \<in> set (followRequests s). followRequests_match u t r)"
    using nor by (simp add: followRequests_findUnique_def find_None_iff)
  show ?thesis
    using tgt nof nor a b
    by (simp add: requestToFollow_def requestToFollow_try_def catch_rethrow_def
        followers_create_def followRequests_create_def)
qed

lemma acceptFollowRequest_cases:
  "acceptFollowRequest t u s =
     (case followRequests_findUnique s u t of
        None \<Rightarrow>
          (Inl (InternalServerErrorException (BadRequestException ''No follow request found.'')),
           s)
      | Some request \<Rightarrow>
          if \<exists>f \<in> set (followers s). followers_match u t f
          then (Inl (InternalServerErrorException (PrismaClientKnownRequestError ''P2002'')), s)
          else (Inr ''Follow request accepted.'',
                s\<lparr>followers := followers s @ [\<lparr>followerId = u, followingId = t\<rparr>],
                  followRequests :=
                    filter (\<lambda>r. fr_id r \<noteq> fr_id request) (followRequests s)\<rparr>))"
proof (cases "followRequests_findUnique s u t")
  case None
  then show ?thesis
    by (simp add: acceptFollowRequest_def acceptFollowRequest_try_def catch_rethrow_def)
next
  case (Some request)
  then have "request \<in> set (followRequests s)"
    by (simp add: followRequests_findUnique_def find_Some_mem)
  then have ex: "\<exists>r \<in> set (followRequests s). fr_id r = fr_id request" by blast
  show ?thesis
    using Some ex
    by (simp add: acceptFollowRequest_def acceptFollowRequest_try_def catch_rethrow_def
        followers_create_def followRequests_delete_def)
qed

text \<open>
  C1. The claim: the follow state machine surfaces its own error kinds to the caller,
  \<open>NotFound\<close> for an absent target, \<open>BadRequest\<close> for a duplicate edge or request and
  for an accept without a request, and no other kind replaces them. The code throws
  exactly these inside its \<^verbatim>\<open>try\<close> block, and its own \<^verbatim>\<open>catch\<close> then replaces
  each by an \<open>InternalServerErrorException\<close> built from it: on the example store, a
  request to follow the absent user 9, the already followed carol and the already asked
  bob, and an accept for the pair (alice, carol) that has no request, all end in the
  internal error.
\<close>

theorem follow_errors_replaced_by_internal_error:
  "fst (requestToFollow 9 1 example_state) =
     Inl (InternalServerErrorException (NotFoundException ''User not found'')) \<and>
   fst (requestToFollow 3 1 example_state) =
     Inl (InternalServerErrorException
            (BadRequestException ''You are already following this user.'')) \<and>
   fst (requestToFollow 2 1 example_state) =
     Inl (InternalServerErrorException (BadRequestException ''Follow request already sent.'')) \<and>
   fst (acceptFollowRequest 3 1 example_state) =
     Inl (InternalServerErrorException (BadRequestException ''No follow request found.''))"
  by (simp add: requestToFollow_def requestToFollow_try_def acceptFollowRequest_def
      acceptFollowRequest_try_def catch_rethrow_def users_findUnique_id_def
      followers_findUnique_def followers_match_def followRequests_findUnique_def
      followRequests_match_def example_defs)

text \<open>
  C3. In a state that holds a follow request for the pair (requester \<open>u\<close>, target
  \<open>t\<close>), a successful \<open>acceptFollowRequest\<close> leaves exactly one follower edge from
  \<open>u\<close> to \<open>t\<close> and no follow request for the pair: the edge is appended and the row of
  the request is deleted. A failed one leaves the state as it was, so the two writes
  happen together or not at all. The call does succeed when no edge was there before.
\<close>

theorem acceptFollowRequest_promotes:
  assumes uq: "followRequests_unique s"
    and req: "followRequests_findUnique s u t = Some request"
  shows "(case fst (acceptFollowRequest t u s) of
            Inr m \<Rightarrow>
              count_followers (snd (acceptFollowRequest t u s)) u t = 1 \<and>
              count_followRequests (snd (acceptFollowRequest t u s)) u t = 0 \<and>
              snd (acceptFollowRequest t u s) =
                s\<lparr>followers := followers s @ [\<lparr>followerId = u, followingId = t\<rparr>],
                  followRequests :=
                    filter (\<lambda>r. fr_id r \<noteq> fr_id request) (followRequests s)\<rparr>
          | Inl e \<Rightarrow> snd (acceptFollowRequest t u s) = s) \<and>
         (followers_findUnique s u t = None \<longrightarrow>
            fst (acceptFollowRequest t u s) = Inr ''Follow request accepted.'')"
proof -
  have mem: "request \<in> set (followRequests s)" and m: "followRequests_match u t request"
    using req by (simp_all add: followRequests_findUnique_def find_Some_mem)
  have gone: "filter (followRequests_match u t)
                 (filter (\<lambda>r. fr_id r \<noteq> fr_id request) (followRequests s)) = []"
    using uq mem m unfolding followRequests_unique_def by (rule unique_pair_filter)
  have A: "(case fst (acceptFollowRequest t u s) of
            Inr m \<Rightarrow>
              count_followers (snd (acceptFollowRequest t u s)) u t = 1 \<and>
              count_followRequests (snd (acceptFollowRequest t u s)) u t = 0 \<and>
              snd (acceptFollowRequest t u s) =
                s\<lparr>followers := followers s @ [\<lparr>followerId = u, followingId = t\<rparr>],
                  followRequests :=
                    filter (\<lambda>r. fr_id r \<noteq> fr_id request) (followRequests s)\<rparr>
          | Inl e \<Rightarrow> snd (acceptFollowRequest t u s) = s)"
  proof (cases "\<exists>f \<in> set (followers s). followers_match u t f")
    case True
    then show ?thesis using req by (simp add: acceptFollowRequest_cases)
  next
    case False
    then have "filter (followers_match u t) (followers s) = []"
      by (simp add: filter_empty_conv)
    then show ?thesis using req False gone
      by (simp add: acceptFollowRequest_cases count_followers_def count_followRequests_def
          followers_match_def)
  qed
  have B: "fst (acceptFollowRequest t u s) = Inr ''Follow request accepted.''"
    if "followers_findUnique s u t = None"
  proof -
    have "\<not> (\<exists>f \<in> set (followers s). followers_match u t f)"
      using that by (simp add: followers_findUnique_def find_None_iff)
    then show ?thesis using req by (simp add: acceptFollowRequest_cases)
  qed
  from A B show ?thesis by blast
qed

theorem acceptFollowRequest_promotes_witness:
  "followRequests_unique example_state \<and>
   followRequests_findUnique example_state 1 2 =
     Some \<lparr>fr_id = 1, requesterId = 1, targetId = 2\<rparr> \<and>
   fst (acceptFollowRequest 2 1 example_state) = Inr ''Follow request accepted.'' \<and>
   count_followers (snd (acceptFollowRequest 2 1 example_state)) 1 2 = 1 \<and>
   count_followRequests (snd (acceptFollowRequest 2 1 example_state)) 1 2 = 0"
proof -
  have uq: "followRequests_unique example_state"
    by (simp add: followRequests_unique_def example_defs)
  have req: "followRequests_findUnique example_state 1 2 =
               Some \<lparr>fr_id = 1, requesterId = 1, targetId = 2\<rparr>"
    by (simp add: followRequests_findUnique_def followRequests_match_def example_defs)
  have nof: "followers_findUnique example_state 1 2 = None"
    by (simp add: followers_findUnique_def followers_match_def example_defs)
  note T = acceptFollowRequest_promotes [OF uq req]
  from T nof
  have ok: "fst (acceptFollowRequest 2 1 example_state) = Inr ''Follow request accepted.''"
    by blast
  from T have "case fst (acceptFollowRequest 2 1 example_state) of
            Inr m \<Rightarrow>
              count_followers (snd (acceptFollowRequest 2 1 example_state)) 1 2 = 1 \<and>
              count_followRequests (snd (acceptFollowRequest 2 1 example_state)) 1 2 = 0 \<and>
              snd (acceptFollowRequest 2 1 example_state) =
                example_state\<lparr>followers := followers example_state @
                                 [\<lparr>followerId = 1, followingId = 2\<rparr>],
                  followRequests :=
                    filter (\<lambda>r. fr_id r \<noteq> fr_id \<lparr>fr_id = 1, requesterId = 1, targetId = 2\<rparr>)
                      (followRequests example_state)\<rparr>
          | Inl e \<Rightarrow> snd (acceptFollowRequest 2 1 example_state) = example_state"
    by (rule conjunct1)
  then have "count_followers (snd (acceptFollowRequest 2 1 example_state)) 1 2 = 1 \<and>
             count_followRequests (snd (acceptFollowRequest 2 1 example_state)) 1 2 = 0"
    unfolding ok sum.case by blast
  with uq req ok show ?thesis by blast
qed

text \<open>
  C8. With the target present and neither a follower edge nor a follow request for the
  pair (requester \<open>u\<close>, target \<open>t\<close>), \<open>requestToFollow\<close> succeeds. For a public target
  it appends one follower edge and leaves the follow requests alone; for a private target
  it appends one follow request and leaves the followers alone.
\<close>

theorem requestToFollow_creates:
  assumes tgt: "users_findUnique_id s t = Some targetUser"
    and nof: "followers_findUnique s u t = None"
    and nor: "followRequests_findUnique s u t = None"
  shows "(\<not> is_private targetUser \<longrightarrow>
            requestToFollow t u s =
              (Inr ''You are now following this user.'',
               s\<lparr>followers := followers s @ [\<lparr>followerId = u, followingId = t\<rparr>]\<rparr>) \<and>
            count_followers (snd (requestToFollow t u s)) u t = 1 \<and>
            followRequests (snd (requestToFollow t u s)) = followRequests s \<and>
            count_followRequests (snd (requestToFollow t u s)) u t = 0) \<and>
         (is_private targetUser \<longrightarrow>
            requestToFollow t u s =
              (Inr ''Follow request sent.'',
               s\<lparr>followRequests := followRequests s @
                    [\<lparr>fr_id = followRequests_seq s + 1, requesterId = u, targetId = t\<rparr>],
                 followRequests_seq := followRequests_seq s + 1\<rparr>) \<and>
            count_followRequests (snd (requestToFollow t u s)) u t = 1 \<and>
            followers (snd (requestToFollow t u s)) = followers s \<and>
            count_followers (snd (requestToFollow t u s)) u t = 0)"
proof -
  note eq = requestToFollow_fresh [OF tgt nof nor]
  have fa: "filter (followers_match u t) (followers s) = []"
    using nof by (simp add: followers_findUnique_def find_None_filter)
  have fb: "filter (followRequests_match u t) (followRequests s) = []"
    using nor by (simp add: followRequests_findUnique_def find_None_filter)
  show ?thesis
    by (simp add: eq count_followers_def count_followRequests_def fa fb
        followers_match_def followRequests_match_def)
qed

theorem requestToFollow_creates_witness:
  "users_findUnique_id example_state 3 = Some carol \<and> \<not> is_private carol \<and>
   users_findUnique_id example_state 2 = Some bob \<and> is_private bob \<and>
   fst (requestToFollow 3 2 example_state) = Inr ''You are now following this user.'' \<and>
   count_followers (snd (requestToFollow 3 2 example_state)) 2 3 = 1 \<and>
   count_followRequests (snd (requestToFollow 3 2 example_state)) 2 3 = 0 \<and>
   fst (requestToFollow 2 3 example_state) = Inr ''Follow request sent.'' \<and>
   count_followRequests (snd (requestToFollow 2 3 example_state)) 3 2 = 1 \<and>
   count_followers (snd (requestToFollow 2 3 example_state)) 3 2 = 0"
proof -
  have c: "users_findUnique_id example_state 3 = Some carol"
    and b: "users_findUnique_id example_state 2 = Some bob"
    by (simp_all add: users_findUnique_id_def example_defs)
  have f23: "followers_findUnique example_state 2 3 = None"
    and f32: "followers_findUnique example_state 3 2 = None"
    by (simp_all add: followers_findUnique_def followers_match_def example_defs)
  have r23: "followRequests_findUnique example_state 2 3 = None"
    and r32: "followRequests_findUnique example_state 3 2 = None"
    by (simp_all add: followRequests_findUnique_def followRequests_match_def example_defs)
  have pc: "\<not> is_private carol" and pb: "is_private bob"
    by (simp_all add: carol_def bob_def)
  from requestToFollow_creates [OF c f23 r23] pc
  have pub: "requestToFollow 3 2 example_state =
              (Inr ''You are now following this user.'',
               example_state\<lparr>followers := followers example_state @
                                [\<lparr>followerId = 2, followingId = 3\<rparr>]\<rparr>)"
    and pub1: "count_followers (snd (requestToFollow 3 2 example_state)) 2 3 = 1"
    and pub0: "count_followRequests (snd (requestToFollow 3 2 example_state)) 2 3 = 0"
    by blast+
  from requestToFollow_creates [OF b f32 r32] pb
  have priv: "requestToFollow 2 3 example_state =
              (Inr ''Follow request sent.'',
               example_state\<lparr>followRequests := followRequests example_state @
                    [\<lparr>fr_id = followRequests_seq example_state + 1, requesterId = 3,
                      targetId = 2\<rparr>],
                 followRequests_seq := followRequests_seq example_state + 1\<rparr>)"
    and priv1: "count_followRequests (snd (requestToFollow 2 3 example_state)) 3 2 = 1"
    and priv0: "count_followers (snd (requestToFollow 2 3 example_state)) 3 2 = 0"
    by blast+
  have "fst (requestToFollow 3 2 example_state) = Inr ''You are now following this user.''"
    and "fst (requestToFollow 2 3 example_state) = Inr ''Follow request sent.''"
    by (simp_all only: pub priv fst_conv)
  with c b pc pb pub1 pub0 priv1 priv0 show ?thesis by blast
qed

text \<open>
  C9. The claim: \<open>unfollowUser\<close> succeeds for every state and every ordered pair. It
  does not for an identifier that the \<^verbatim>\<open>Int\<close> column cannot hold: the store refuses
  the \<^verbatim>\<open>deleteMany\<close> and the \<^verbatim>\<open>catch\<close> turns that into an internal error.
\<close>

theorem unfollowUser_out_of_range_counterexample:
  "unfollowUser 2147483648 1 example_state =
     (Inl (InternalServerErrorException (PrismaClientKnownRequestError ''P2020'')),
      example_state)"
  by (simp add: unfollowUser_def unfollowUser_try_def catch_rethrow_def
      followers_deleteMany_def in_Int_range_def)

text \<open>
  C9, amended. For identifiers within the range of the \<^verbatim>\<open>Int\<close> column,
  \<open>unfollowUser\<close> always succeeds. It removes every follower edge from \<open>u\<close> to \<open>t\<close>,
  so none is left; where there was none, the state is as before; and a second call right
  after the first succeeds too and changes nothing more.
\<close>

theorem unfollowUser_idempotent_in_range:
  assumes "in_Int_range t" and "in_Int_range u"
  shows "fst (unfollowUser t u s) = Inr ''Unfollowed successfully.'' \<and>
   snd (unfollowUser t u s) =
     s\<lparr>followers := filter (\<lambda>f. \<not> followers_match u t f) (followers s)\<rparr> \<and>
   followers_findUnique (snd (unfollowUser t u s)) u t = None \<and>
   (followers_findUnique s u t = None \<longrightarrow> snd (unfollowUser t u s) = s) \<and>
   fst (unfollowUser t u (snd (unfollowUser t u s))) = Inr ''Unfollowed successfully.'' \<and>
   snd (unfollowUser t u (snd (unfollowUser t u s))) = snd (unfollowUser t u s)"
  using assms
  by (auto simp: unfollowUser_def unfollowUser_try_def catch_rethrow_def
      followers_deleteMany_def followers_findUnique_def find_None_iff filter_id_conv)

theorem unfollowUser_idempotent_in_range_witness:
  "in_Int_range 3 \<and> in_Int_range 1 \<and> in_Int_range 2 \<and>
   followers_findUnique example_state 1 3 = Some \<lparr>followerId = 1, followingId = 3\<rparr> \<and>
   fst (unfollowUser 3 1 example_state) = Inr ''Unfollowed successfully.'' \<and>
   followers (snd (unfollowUser 3 1 example_state)) = [] \<and>
   followers_findUnique example_state 2 3 = None \<and>
   snd (unfollowUser 3 2 example_state) = example_state \<and>
   unfollowUser 3 1 (snd (unfollowUser 3 1 example_state)) =
     (Inr ''Unfollowed successfully.'', snd (unfollowUser 3 1 example_state))"
proof -
  have r: "in_Int_range 3" "in_Int_range 1" "in_Int_range 2"
    by (simp_all add: in_Int_range_def)
  have a: "followers_findUnique example_state 1 3 = Some \<lparr>followerId = 1, followingId = 3\<rparr>"
    and b: "followers_findUnique example_state 2 3 = None"
    by (simp_all add: followers_findUnique_def followers_match_def example_defs)
  note T1 = unfollowUser_idempotent_in_range [OF r(1) r(2), where s = example_state]
  note T2 = unfollowUser_idempotent_in_range [OF r(1) r(3), where s = example_state]
  from T1 have ok: "fst (unfollowUser 3 1 example_state) = Inr ''Unfollowed successfully.''"
    by blast
  from T1 have "snd (unfollowUser 3 1 example_state) =
      example_state\<lparr>followers :=
        filter (\<lambda>f. \<not> followers_match 1 3 f) (followers example_state)\<rparr>"
    by blast
  then have c: "followers (snd (unfollowUser 3 1 example_state)) = []"
    by (simp add: followers_match_def example_defs)
  from T2 b have d: "snd (unfollowUser 3 2 example_state) = example_state"
    by blast
  from T1 have "fst (unfollowUser 3 1 (snd (unfollowUser 3 1 example_state))) =
        Inr ''Unfollowed successfully.''"
    and "snd (unfollowUser 3 1 (snd (unfollowUser 3 1 example_state))) =
        snd (unfollowUser 3 1 example_state)"
    by blast+
  then have e: "unfollowUser 3 1 (snd (unfollowUser 3 1 example_state)) =
     (Inr ''Unfollowed successfully.'', snd (unfollowUser 3 1 example_state))"
    by (simp add: prod_eq_iff)
  from r a ok c b d e show ?thesis by blast
qed

section \<open>Registration and login\<close>

lemma register_fresh:
  assumes "users_findUnique_email s (reg_email dto) = None"
  shows "register e salt dto s =
     (Inr (omit_password
            \<lparr>u_id = users_seq s + 1, firstName = reg_firstName dto, lastName = reg_lastName dto,
              email = reg_email dto,
              password = bcrypt_hash e (reg_password dto) (saltRounds e) salt,
              role = reg_role dto, is_private = is_private_default e, profile_picture = []\<rparr>),
      s\<lparr>users := users s @
           [\<lparr>u_id = users_seq s + 1, firstName = reg_firstName dto, lastName = reg_lastName dto,
              email = reg_email dto,
              password = bcrypt_hash e (reg_password dto) (saltRounds e) salt,
              role = reg_role dto, is_private = is_private_default e, profile_picture = []\<rparr>],
         users_seq := users_seq s + 1\<rparr>)"
proof -
  have "\<not> (\<exists>u \<in> set (users s). email u = reg_email dto)"
    using assms by (simp add: users_findUnique_email_def find_None_iff)
  then show ?thesis using assms
    by (simp add: register_def users_create_def Let_def)
qed

lemma example_env_no_fixed_point: "bcrypt_no_fixed_point example_env"
proof -
  have "''$2b$'' @ sl @ ''$'' @ p \<noteq> p" for sl p :: string
  proof
    assume "''$2b$'' @ sl @ ''$'' @ p = p"
    then have "length (''$2b$'' @ sl @ ''$'' @ p) = length p" by (rule arg_cong)
    then show False by simp
  qed
  then show ?thesis by (simp add: bcrypt_no_fixed_point_def example_env_def)
qed

lemma example_emails:
  "users_findUnique_email example_state ''alice@x.org'' = Some alice"
  "users_findUnique_email example_state ''dave@x.org'' = None"
  by (simp_all add: users_findUnique_email_def example_defs)

text \<open>
  C5. If a user with the email of the request is stored, \<open>register\<close> fails with
  \<open>ConflictException\<close> and the state is unchanged. Otherwise it appends one user, made
  of the fields of the request, the next identifier, the bcrypt hash of the plaintext as
  password and the empty string as profile picture, and returns that user field by field
  without the password. bcrypt is outside the repository; that its output differs from
  its input is the hypothesis, and under it the stored password differs from the
  plaintext.
\<close>

theorem register_conflict_or_creates:
  assumes "bcrypt_no_fixed_point e"
  shows "(case users_findUnique_email s (reg_email dto) of
       Some existingUser \<Rightarrow>
         register e salt dto s = (Inl (ConflictException ''User already exists''), s)
     | None \<Rightarrow>
         (\<exists>newUser result.
            register e salt dto s =
              (Inr result,
               s\<lparr>users := users s @ [newUser], users_seq := users_seq s + 1\<rparr>) \<and>
            newUser =
              \<lparr>u_id = users_seq s + 1, firstName = reg_firstName dto,
               lastName = reg_lastName dto, email = reg_email dto,
               password = bcrypt_hash e (reg_password dto) (saltRounds e) salt,
               role = reg_role dto, is_private = is_private_default e,
               profile_picture = []\<rparr> \<and>
            password newUser \<noteq> reg_password dto \<and>
            result =
              \<lparr>res_id = u_id newUser, res_firstName = firstName newUser,
               res_lastName = lastName newUser, res_email = email newUser,
               res_role = role newUser, res_is_private = is_private newUser,
               res_profile_picture = profile_picture newUser\<rparr>))"
proof (cases "users_findUnique_email s (reg_email dto)")
  case None
  have neq: "bcrypt_hash e (reg_password dto) (saltRounds e) salt \<noteq> reg_password dto"
    using assms by (simp add: bcrypt_no_fixed_point_def)
  show ?thesis
    unfolding None option.case register_fresh [OF None]
    by (rule exI, rule exI, rule conjI, rule refl) (simp add: neq omit_password_def)
next
  case (Some a)
  then show ?thesis by (simp add: register_def)
qed

theorem register_conflict_or_creates_witness:
  "bcrypt_no_fixed_point example_env \<and>
   register example_env ''s9''
     \<lparr>reg_firstName = ''Al'', reg_lastName = ''Ice'', reg_email = ''alice@x.org'',
      reg_password = ''rabbit'', reg_role = User\<rparr> example_state =
     (Inl (ConflictException ''User already exists''), example_state) \<and>
   register example_env ''s4''
     \<lparr>reg_firstName = ''Dave'', reg_lastName = ''D'', reg_email = ''dave@x.org'',
      reg_password = ''hunter2'', reg_role = User\<rparr> example_state =
     (Inr \<lparr>res_id = 4, res_firstName = ''Dave'', res_lastName = ''D'',
           res_email = ''dave@x.org'', res_role = User, res_is_private = False,
           res_profile_picture = []\<rparr>,
      example_state
        \<lparr>users := users example_state @
           [\<lparr>u_id = 4, firstName = ''Dave'', lastName = ''D'', email = ''dave@x.org'',
             password = ''$2b$s4$hunter2'', role = User, is_private = False,
             profile_picture = []\<rparr>],
         users_seq := users_seq example_state + 1\<rparr>) \<and>
   ''$2b$s4$hunter2'' \<noteq> ''hunter2''"
proof -
  let ?a = "\<lparr>reg_firstName = ''Al'', reg_lastName = ''Ice'', reg_email = ''alice@x.org'',
             reg_password = ''rabbit'', reg_role = User\<rparr>"
  let ?d = "\<lparr>reg_firstName = ''Dave'', reg_lastName = ''D'', reg_email = ''dave@x.org'',
             reg_password = ''hunter2'', reg_role = User\<rparr>"
  note nf = example_env_no_fixed_point
  have h: "bcrypt_hash example_env ''hunter2'' (saltRounds example_env) ''s4'' = ''$2b$s4$hunter2''"
    and p: "is_private_default example_env = False"
    and q: "users_seq example_state + 1 = 4"
    by (simp_all add: example_env_def example_state_def)
  from register_conflict_or_creates [OF nf, where s = example_state and dto = ?a and salt = "''s9''"]
  have a: "register example_env ''s9'' ?a example_state =
             (Inl (ConflictException ''User already exists''), example_state)"
    by (simp add: example_emails)
  from register_conflict_or_creates [OF nf, where s = example_state and dto = ?d and salt = "''s4''"]
  have "\<exists>newUser result.
      register example_env ''s4'' ?d example_state =
        (Inr result,
         example_state\<lparr>users := users example_state @ [newUser],
                        users_seq := users_seq example_state + 1\<rparr>) \<and>
      newUser =
        \<lparr>u_id = 4, firstName = ''Dave'', lastName = ''D'', email = ''dave@x.org'',
         password = ''$2b$s4$hunter2'', role = User, is_private = False,
         profile_picture = []\<rparr> \<and>
      result =
        \<lparr>res_id = u_id newUser, res_firstName = firstName newUser,
         res_lastName = lastName newUser, res_email = email newUser,
         res_role = role newUser, res_is_private = is_private newUser,
         res_profile_picture = profile_picture newUser\<rparr>"
    unfolding example_emails option.case RegisterDTO.simps h p q by blast
  then have d: "register example_env ''s4'' ?d example_state =
     (Inr \<lparr>res_id = 4, res_firstName = ''Dave'', res_lastName = ''D'',
           res_email = ''dave@x.org'', res_role = User, res_is_private = False,
           res_profile_picture = []\<rparr>,
      example_state
        \<lparr>users := users example_state @
           [\<lparr>u_id = 4, firstName = ''Dave'', lastName = ''D'', email = ''dave@x.org'',
             password = ''$2b$s4$hunter2'', role = User, is_private = False,
             profile_picture = []\<rparr>],
         users_seq := users_seq example_state + 1\<rparr>)"
    by auto
  have "''$2b$s4$hunter2'' \<noteq> ''hunter2''" by simp
  with nf a d show ?thesis by blast
qed

text \<open>
  C10. \<open>register\<close> stores the role of the request as given: the endpoint has no guard
  and the service neither checks nor replaces the role, so with an unused email the new
  user has the role asked for. In particular a request without any bearer token and with
  role \<open>Admin\<close> creates an administrator.
\<close>

theorem register_persists_role:
  assumes "users_findUnique_email s (reg_email dto) = None"
  shows "\<exists>newUser.
            controller_register e salt authorization dto s =
              (Inr (omit_password newUser),
               s\<lparr>users := users s @ [newUser], users_seq := users_seq s + 1\<rparr>) \<and>
            email newUser = reg_email dto \<and>
            role newUser = reg_role dto \<and>
            res_role (omit_password newUser) = reg_role dto"
  unfolding controller_register_def register_fresh [OF assms]
  by (rule exI, rule conjI, rule refl) (simp add: omit_password_def)

theorem register_persists_role_witness:
  "users_findUnique_email example_state ''dave@x.org'' = None \<and>
   (\<exists>newUser.
      controller_register example_env ''s4'' None
        \<lparr>reg_firstName = ''Dave'', reg_lastName = ''D'', reg_email = ''dave@x.org'',
         reg_password = ''hunter2'', reg_role = Admin\<rparr> example_state =
        (Inr (omit_password newUser),
         example_state\<lparr>users := users example_state @ [newUser],
                        users_seq := users_seq example_state + 1\<rparr>) \<and>
      email newUser = ''dave@x.org'' \<and>
      role newUser = Admin)"
proof -
  let ?d = "\<lparr>reg_firstName = ''Dave'', reg_lastName = ''D'', reg_email = ''dave@x.org'',
             reg_password = ''hunter2'', reg_role = Admin\<rparr>"
  have fresh: "users_findUnique_email example_state (reg_email ?d) = None"
    by (simp add: example_emails)
  from register_persists_role [OF fresh, where e = example_env and salt = "''s4''" and authorization = None]
  have "\<exists>newUser.
      controller_register example_env ''s4'' None ?d example_state =
        (Inr (omit_password newUser),
         example_state\<lparr>users := users example_state @ [newUser],
                        users_seq := users_seq example_state + 1\<rparr>) \<and>
      email newUser = ''dave@x.org'' \<and>
      role newUser = Admin"
    unfolding RegisterDTO.simps by blast
  with example_emails(2) show ?thesis by blast
qed

text \<open>
  C6. A login whose email is not stored and a login whose email is stored but whose
  password bcrypt rejects fail alike: the same exception, \<open>UnauthorizedException\<close>, with
  the same message, and the state untouched in both.
\<close>

theorem login_failures_indistinguishable:
  assumes "users_findUnique_email s1 (login_email d1) = None"
    and "users_findUnique_email s2 (login_email d2) = Some user"
    and "\<not> bcrypt_compare e (login_password d2) (password user)"
  shows "login e now1 uuid1 d1 s1 = (Inl (UnauthorizedException ''Invalid credentials''), s1) \<and>
         login e now2 uuid2 d2 s2 = (Inl (UnauthorizedException ''Invalid credentials''), s2) \<and>
         fst (login e now1 uuid1 d1 s1) = fst (login e now2 uuid2 d2 s2)"
  using assms by (simp add: login_def)

theorem login_failures_indistinguishable_witness:
  "users_findUnique_email example_state ''dave@x.org'' = None \<and>
   users_findUnique_email example_state ''alice@x.org'' = Some alice \<and>
   \<not> bcrypt_compare example_env ''rabbit'' (password alice) \<and>
   bcrypt_compare example_env ''wonderland'' (password alice) \<and>
   fst (login example_env 10 ''u1''
          \<lparr>login_email = ''dave@x.org'', login_password = ''hunter2''\<rparr> example_state) =
     Inl (UnauthorizedException ''Invalid credentials'') \<and>
   fst (login example_env 20 ''u2''
          \<lparr>login_email = ''alice@x.org'', login_password = ''rabbit''\<rparr> example_state) =
     Inl (UnauthorizedException ''Invalid credentials'')"
proof -
  let ?d1 = "\<lparr>login_email = ''dave@x.org'', login_password = ''hunter2''\<rparr>"
  let ?d2 = "\<lparr>login_email = ''alice@x.org'', login_password = ''rabbit''\<rparr>"
  have a: "users_findUnique_email example_state (login_email ?d1) = None"
    and b: "users_findUnique_email example_state (login_email ?d2) = Some alice"
    by (simp_all add: example_emails)
  have c: "\<not> bcrypt_compare example_env (login_password ?d2) (password alice)"
    and c': "bcrypt_compare example_env ''wonderland'' (password alice)"
    by (simp_all add: example_env_def alice_def)
  from login_failures_indistinguishable [OF a b c, where ?now1.0 = 10 and ?uuid1.0 = "''u1''" and ?now2.0 = 20 and ?uuid2.0 = "''u2''"]
  have "fst (login example_env 10 ''u1'' ?d1 example_state) =
          Inl (UnauthorizedException ''Invalid credentials'')"
    and "fst (login example_env 20 ''u2'' ?d2 example_state) =
          Inl (UnauthorizedException ''Invalid credentials'')"
    by simp_all
  with example_emails c c' show ?thesis by simp
qed

section \<open>Forgotten and reset passwords\<close>

text \<open>
  C7. \<open>forgotPassword\<close> returns the same success message whatever the email and the
  state, so two calls, one for a stored email and one for an unknown one, return the same
  value.
\<close>

theorem forgotPassword_uniform:
  "fst (forgotPassword now nano em s) = Inr ''If user exists, they will receive an email'' \<and>
   fst (forgotPassword now nano em s) = fst (forgotPassword now' nano' em' s')"
  by (simp add: forgotPassword_def Let_def)

theorem forgotPassword_uniform_witness:
  "users_findUnique_email example_state ''alice@x.org'' = Some alice \<and>
   users_findUnique_email example_state ''dave@x.org'' = None \<and>
   fst (forgotPassword 10 ''n1'' ''alice@x.org'' example_state) =
     fst (forgotPassword 20 ''n2'' ''dave@x.org'' example_state) \<and>
   sentMail (snd (forgotPassword 10 ''n1'' ''alice@x.org'' example_state)) =
     [(''alice@x.org'', ''n1'')] \<and>
   snd (forgotPassword 20 ''n2'' ''dave@x.org'' example_state) = example_state"
proof -
  from forgotPassword_uniform [where now = 10 and nano = "''n1''" and em = "''alice@x.org''"
      and s = example_state and now' = 20 and nano' = "''n2''" and em' = "''dave@x.org''"
      and s' = example_state]
  have eq: "fst (forgotPassword 10 ''n1'' ''alice@x.org'' example_state) =
            fst (forgotPassword 20 ''n2'' ''dave@x.org'' example_state)"
    by (rule conjunct2)
  have m: "sentMail (snd (forgotPassword 10 ''n1'' ''alice@x.org'' example_state)) =
             [(''alice@x.org'', ''n1'')]"
    by (simp add: forgotPassword_def Let_def example_emails sendPasswordResetEmail_def
        resetToken_create_def) (simp add: example_state_def)
  have n: "snd (forgotPassword 20 ''n2'' ''dave@x.org'' example_state) = example_state"
    by (simp add: forgotPassword_def Let_def example_emails)
  from example_emails eq m n show ?thesis by blast
qed

text \<open>
  C4. A successful \<open>resetPassword\<close> changes the state in one place only: the stored
  password of the user the token belongs to becomes the hash of the new password. The
  table of reset tokens is the same afterwards, so the row of the token just used is
  still found, and the same token resets the password once more.
\<close>

theorem resetPassword_frame:
  assumes ok: "resetPassword e now salt dto s = (Inr m, s')"
  shows "\<exists>token user.
           resetToken_findFirst s (reset_resetToken dto) now = Some token \<and>
           users_findUnique_id s (rs_userId token) = Some user \<and>
           s' = s\<lparr>users :=
                   map (\<lambda>u. if u_id u = rs_userId token
                             then u\<lparr>password :=
                                     bcrypt_hash e (reset_newPassword dto) (saltRounds e) salt\<rparr>
                             else u) (users s)\<rparr> \<and>
           resetToken s' = resetToken s \<and>
           resetToken_findFirst s' (reset_resetToken dto) now = Some token \<and>
           fst (resetPassword e now salt2 (dto\<lparr>reset_newPassword := pw2\<rparr>) s') =
             Inr ''Password reset successfully.''"
proof -
  obtain token where tk: "resetToken_findFirst s (reset_resetToken dto) now = Some token"
    using ok by (auto simp: resetPassword_def split: option.splits)
  obtain user where us: "users_findUnique_id s (rs_userId token) = Some user"
    using ok tk by (auto simp: resetPassword_def split: option.splits)
  have uid: "u_id user = rs_userId token" and mem: "user \<in> set (users s)"
    using us find_Some_mem [of "\<lambda>u. u_id u = rs_userId token" "users s" user]
    by (simp_all add: users_findUnique_id_def)
  then have ex: "\<exists>u \<in> set (users s). u_id u = rs_userId token" by blast
  define f :: "Users \<Rightarrow> Users" where
    "f = (\<lambda>u. if u_id u = rs_userId token
              then u\<lparr>password := bcrypt_hash e (reset_newPassword dto) (saltRounds e) salt\<rparr>
              else u)"
  have s': "s' = s\<lparr>users := map f (users s)\<rparr>"
    using ok tk us uid ex
    by (simp add: resetPassword_def Let_def users_update_password_def f_def split: if_splits)
  have fid: "\<And>u. u_id (f u) = u_id u" by (simp add: f_def)
  have rt: "resetToken s' = resetToken s" by (simp add: s')
  have tk': "resetToken_findFirst s' (reset_resetToken dto) now = Some token"
    using tk by (simp add: resetToken_findFirst_def rt)
  have us': "users_findUnique_id s' (rs_userId token) = Some (f user)"
    using us by (simp add: users_findUnique_id_def s' find_map_id [OF fid])
  have ex': "\<exists>u \<in> set (users s'). u_id u = rs_userId token"
    using mem uid fid by (auto simp: s')
  have again: "fst (resetPassword e now salt2 (dto\<lparr>reset_newPassword := pw2\<rparr>) s') =
             Inr ''Password reset successfully.''"
    using tk' us' ex' fid uid
    by (simp add: resetPassword_def Let_def users_update_password_def)
  show ?thesis
    using tk us s' rt tk' again by (simp add: f_def)
qed

theorem resetPassword_frame_witness:
  "resetPassword example_env 500 ''s7''
     \<lparr>reset_resetToken = ''reset-1'', reset_newPassword = ''looking-glass''\<rparr> example_state =
     (Inr ''Password reset successfully.'',
      example_state\<lparr>users := [alice\<lparr>password := ''$2b$s7$looking-glass''\<rparr>, bob, carol]\<rparr>) \<and>
   resetToken (example_state\<lparr>users := [alice\<lparr>password := ''$2b$s7$looking-glass''\<rparr>, bob, carol]\<rparr>)
     = resetToken example_state \<and>
   fst (resetPassword example_env 500 ''s8''
          \<lparr>reset_resetToken = ''reset-1'', reset_newPassword = ''again''\<rparr>
          (example_state\<lparr>users := [alice\<lparr>password := ''$2b$s7$looking-glass''\<rparr>, bob, carol]\<rparr>)) =
     Inr ''Password reset successfully.''"
proof -
  let ?dto = "\<lparr>reset_resetToken = ''reset-1'', reset_newPassword = ''looking-glass''\<rparr>"
  let ?s' = "example_state\<lparr>users := [alice\<lparr>password := ''$2b$s7$looking-glass''\<rparr>, bob, carol]\<rparr>"
  have ok: "resetPassword example_env 500 ''s7'' ?dto example_state =
              (Inr ''Password reset successfully.'', ?s')"
    by (simp add: resetPassword_def resetToken_findFirst_def users_findUnique_id_def
        users_update_password_def Let_def saltRounds_def example_defs)
  from resetPassword_frame [OF ok, where ?salt2.0 = "''s8''" and ?pw2.0 = "''again''"]
  have "resetToken ?s' = resetToken example_state"
    and "fst (resetPassword example_env 500 ''s8''
               \<lparr>reset_resetToken = ''reset-1'', reset_newPassword = ''again''\<rparr> ?s') =
          Inr ''Password reset successfully.''"
    by auto
  with ok show ?thesis by blast
qed

section \<open>Refresh-token rotation\<close>

lemma refreshTokens_found:
  assumes "refreshToken_findFirst s t now = Some r"
  shows "refreshTokens e now uuid t s =
     (Inr \<lparr>accessToken = jwt_sign e (rt_userId r) now, newRefreshToken = uuid\<rparr>,
      s\<lparr>refreshToken :=
          map (\<lambda>x. if rt_id x = rt_id r
                    then x\<lparr>rt_token := uuid, rt_expiryDate := now + three_days\<rparr> else x)
              (refreshToken s)\<rparr>)"
proof -
  have "r \<in> set (refreshToken s)"
    using assms
      find_Some_mem [of "\<lambda>r. rt_token r = t \<and> now \<le> rt_expiryDate r" "refreshToken s" r]
    by (simp add: refreshToken_findFirst_def)
  then have "\<exists>x \<in> set (refreshToken s). rt_id x = rt_id r" by blast
  then show ?thesis using assms
    by (simp add: refreshTokens_def refreshToken_update_row_def generateUserTokens_def Let_def)
qed

text \<open>
  The table kept by \<open>login\<close> and \<open>refreshTokens\<close>: with a value from \<^verbatim>\<open>uuIdv4()\<close>
  that no row holds yet, both keep \<open>refreshToken_inv\<close>, and under it no value has two
  holders.
\<close>

lemma rewrite_keeps_keys:
  "rt_id \<circ> (\<lambda>x. if c x then x\<lparr>rt_token := a, rt_expiryDate := b\<rparr> else x) = rt_id"
  "rt_userId \<circ> (\<lambda>x. if c x then x\<lparr>rt_token := a, rt_expiryDate := b\<rparr> else x) = rt_userId"
  by (rule ext, simp)+

lemma rewrite_by_key_distinct:
  fixes key :: "RefreshToken \<Rightarrow> int"
  assumes "distinct (map key xs)" and "distinct (map rt_token xs)"
    and "uuid \<notin> set (map rt_token xs)"
  shows "distinct (map rt_token
            (map (\<lambda>r. if key r = k then r\<lparr>rt_token := uuid, rt_expiryDate := ex\<rparr> else r) xs))"
proof -
  define g where "g = (\<lambda>r. if key r = k then r\<lparr>rt_token := uuid, rt_expiryDate := ex\<rparr> else r)"
  have sub: "set (map rt_token (map g ys)) \<subseteq> insert uuid (set (map rt_token ys))" for ys
    by (auto simp: g_def)
  have "distinct (map rt_token (map g xs))"
    using assms
  proof (induction xs)
    case Nil
    then show ?case by simp
  next
    case (Cons a xs)
    have IH: "distinct (map rt_token (map g xs))"
      using Cons by simp
    have step: "distinct (map rt_token (map g (a # xs))) \<longleftrightarrow>
                  rt_token (g a) \<notin> set (map rt_token (map g xs)) \<and>
                  distinct (map rt_token (map g xs))"
      by (simp only: list.map distinct.simps)
    have fresh_xs: "uuid \<notin> set (map rt_token xs)" and fresh_a: "rt_token a \<noteq> uuid"
      using Cons.prems(3) by auto
    have a_xs: "rt_token a \<notin> set (map rt_token xs)"
      using Cons.prems(2) by simp
    show ?case
    proof (cases "key a = k")
      case True
      have "key x \<noteq> k" if x: "x \<in> set xs" for x
      proof
        assume "key x = k"
        with True have "key a = key x" by simp
        with x have "key a \<in> set (map key xs)" by (simp add: image_iff) blast
        with Cons.prems(1) show False by simp
      qed
      then have "map g xs = xs" by (simp add: map_idI g_def)
      moreover have "rt_token (g a) = uuid" using True by (simp add: g_def)
      ultimately show ?thesis using step fresh_xs Cons.prems(2) by simp
    next
      case False
      then have "g a = a" by (simp add: g_def)
      moreover have "rt_token a \<notin> set (map rt_token (map g xs))"
        using sub [of xs] fresh_a a_xs by blast
      ultimately show ?thesis using step IH by simp
    qed
  qed
  then show ?thesis unfolding g_def .
qed

lemma refreshToken_inv_holders:
  assumes "refreshToken_inv s"
  shows "length (holders s t) \<le> 1"
proof -
  have "distinct (map f xs) \<Longrightarrow> length (filter (\<lambda>r. f r = t) xs) \<le> 1"
    for f :: "RefreshToken \<Rightarrow> string" and xs
    by (induction xs) (auto simp: filter_empty_conv image_iff)
  then show ?thesis
    using assms by (simp add: refreshToken_inv_def holders_def)
qed

lemma refreshTokens_keeps_inv:
  assumes inv: "refreshToken_inv s"
    and fresh: "uuid \<notin> set (map rt_token (refreshToken s))"
  shows "refreshToken_inv (snd (refreshTokens e now uuid t s))"
proof (cases "refreshToken_findFirst s t now")
  case None
  then show ?thesis using inv by (simp add: refreshTokens_def)
next
  case (Some r)
  let ?g = "\<lambda>x. if rt_id x = rt_id r
                 then x\<lparr>rt_token := uuid, rt_expiryDate := now + three_days\<rparr> else x"
  have d_id: "distinct (map rt_id (refreshToken s))"
    and d_tok: "distinct (map rt_token (refreshToken s))"
    using inv by (simp_all add: refreshToken_inv_def)
  have toks: "distinct (map rt_token (map ?g (refreshToken s)))"
    by (rule rewrite_by_key_distinct [OF d_id d_tok fresh])
  have bound: "list_all (\<lambda>x. rt_id x \<le> refreshToken_seq s) (map ?g (refreshToken s))"
    using inv by (auto simp: refreshToken_inv_def list_all_iff)
  show ?thesis
    using inv toks bound
    by (simp add: refreshTokens_found [OF Some] refreshToken_inv_def rewrite_keeps_keys)
qed

lemma login_keeps_inv:
  assumes inv: "refreshToken_inv s"
    and fresh: "uuid \<notin> set (map rt_token (refreshToken s))"
  shows "refreshToken_inv (snd (login e now uuid dto s))"
proof -
  have up: "refreshToken_inv (refreshToken_upsert uid uuid ex s)" for uid ex
  proof (cases "\<exists>r \<in> set (refreshToken s). rt_userId r = uid")
    case True
    let ?g = "\<lambda>x. if rt_userId x = uid then x\<lparr>rt_token := uuid, rt_expiryDate := ex\<rparr> else x"
    have d_uid: "distinct (map rt_userId (refreshToken s))"
      and d_tok: "distinct (map rt_token (refreshToken s))"
      using inv by (simp_all add: refreshToken_inv_def)
    have toks: "distinct (map rt_token (map ?g (refreshToken s)))"
      by (rule rewrite_by_key_distinct [OF d_uid d_tok fresh])
    have bound: "list_all (\<lambda>x. rt_id x \<le> refreshToken_seq s) (map ?g (refreshToken s))"
      using inv by (auto simp: refreshToken_inv_def list_all_iff)
    show ?thesis
      using True inv toks bound
      by (simp add: refreshToken_upsert_def refreshToken_inv_def rewrite_keeps_keys)
  next
    case False
    have "refreshToken_seq s + 1 \<notin> rt_id ` set (refreshToken s)"
      using inv by (auto simp: refreshToken_inv_def list_all_iff)
    moreover have "list_all (\<lambda>x. rt_id x \<le> refreshToken_seq s + 1) (refreshToken s)"
      using inv by (auto simp: refreshToken_inv_def list_all_iff)
    ultimately show ?thesis
      using False inv fresh
      by (auto simp: refreshToken_upsert_def refreshToken_inv_def)
  qed
  show ?thesis
    using inv up by (simp add: login_def Let_def generateUserTokens_def split: option.splits)
qed

text \<open>
  C2. After a successful \<open>refreshTokens\<close> with the value \<open>t\<close>, the row that held
  \<open>t\<close> holds the new value, no row holds \<open>t\<close>, and a second \<open>refreshTokens\<close> with
  \<open>t\<close>, at any later instant, fails with \<open>UnauthorizedException\<close>. The new value is
  what \<^verbatim>\<open>uuIdv4()\<close> draws: it is brand-new, so it is not \<open>t\<close>, and, the stored values
  having been drawn the same way, \<open>t\<close> has one holder only.
\<close>

theorem refreshTokens_rotation:
  assumes ok: "refreshTokens e now1 uuid1 t s = (Inr toks, s1)"
    and fresh: "uuid1 \<noteq> t"
    and single: "length (holders s t) \<le> 1"
  shows "newRefreshToken toks = uuid1 \<and>
         holders s1 t = [] \<and>
         holders s1 uuid1 \<noteq> [] \<and>
         refreshTokens e now2 uuid2 t s1 =
           (Inl (UnauthorizedException ''Invalid or expired refresh token''), s1)"
proof -
  obtain r where f: "refreshToken_findFirst s t now1 = Some r"
    using ok by (auto simp: refreshTokens_def split: option.splits)
  have mem: "r \<in> set (refreshToken s)" and tok: "rt_token r = t"
    using f find_Some_mem [of "\<lambda>r. rt_token r = t \<and> now1 \<le> rt_expiryDate r" "refreshToken s" r]
    by (simp_all add: refreshToken_findFirst_def)
  define g :: "RefreshToken \<Rightarrow> RefreshToken" where
    "g = (\<lambda>x. if rt_id x = rt_id r
              then x\<lparr>rt_token := uuid1, rt_expiryDate := now1 + three_days\<rparr> else x)"
  have s1: "s1 = s\<lparr>refreshToken := map g (refreshToken s)\<rparr>"
    and toks: "newRefreshToken toks = uuid1"
    using ok by (auto simp: refreshTokens_found [OF f] g_def)
  have none: "rt_token (g y) \<noteq> t" if y: "y \<in> set (refreshToken s)" for y
  proof (cases "rt_id y = rt_id r")
    case True
    then show ?thesis using fresh by (simp add: g_def)
  next
    case False
    then have "y \<noteq> r" by auto
    then have "rt_token y \<noteq> t"
      using filter_le1_eq [of "\<lambda>r. rt_token r = t" "refreshToken s" r y] single mem tok y
      by (auto simp: holders_def)
    then show ?thesis using False by (simp add: g_def)
  qed
  have h0: "holders s1 t = []"
    using none by (auto simp: holders_def s1 filter_empty_conv)
  have "g r \<in> set (refreshToken s1)" using mem by (simp add: s1)
  moreover have "rt_token (g r) = uuid1" by (simp add: g_def)
  ultimately have h1: "holders s1 uuid1 \<noteq> []"
    by (auto simp: holders_def filter_empty_conv)
  have "refreshToken_findFirst s1 t now2 = None"
    using h0 by (auto simp: refreshToken_findFirst_def holders_def find_None_iff filter_empty_conv)
  then have "refreshTokens e now2 uuid2 t s1 =
           (Inl (UnauthorizedException ''Invalid or expired refresh token''), s1)"
    by (simp add: refreshTokens_def)
  with toks h0 h1 show ?thesis by simp
qed

theorem refreshTokens_rotation_witness:
  "refreshTokens example_env 500 ''rt-next'' ''rt-alice'' example_state =
     (Inr \<lparr>accessToken = ''jwt'', newRefreshToken = ''rt-next''\<rparr>,
      example_state\<lparr>refreshToken :=
        [\<lparr>rt_id = 1, rt_token = ''rt-next'', rt_userId = 1,
          rt_expiryDate = 500 + three_days\<rparr>]\<rparr>) \<and>
   ''rt-next'' \<noteq> ''rt-alice'' \<and>
   refreshToken_inv example_state \<and>
   length (holders example_state ''rt-alice'') \<le> 1 \<and>
   fst (refreshTokens example_env 600 ''rt-third'' ''rt-alice''
         (example_state\<lparr>refreshToken :=
            [\<lparr>rt_id = 1, rt_token = ''rt-next'', rt_userId = 1,
              rt_expiryDate = 500 + three_days\<rparr>]\<rparr>)) =
     Inl (UnauthorizedException ''Invalid or expired refresh token'')"
proof -
  let ?s1 = "example_state\<lparr>refreshToken :=
        [\<lparr>rt_id = 1, rt_token = ''rt-next'', rt_userId = 1,
          rt_expiryDate = 500 + three_days\<rparr>]\<rparr>"
  have ok: "refreshTokens example_env 500 ''rt-next'' ''rt-alice'' example_state =
     (Inr \<lparr>accessToken = ''jwt'', newRefreshToken = ''rt-next''\<rparr>, ?s1)"
    by (simp add: refreshTokens_def refreshToken_findFirst_def refreshToken_update_row_def
        generateUserTokens_def Let_def example_defs)
  have fresh: "''rt-next'' \<noteq> ''rt-alice''" by simp
  have inv: "refreshToken_inv example_state"
    by (simp add: refreshToken_inv_def example_defs)
  have single: "length (holders example_state ''rt-alice'') \<le> 1"
    using inv by (rule refreshToken_inv_holders)
  from refreshTokens_rotation [OF ok fresh single, where ?now2.0 = 600 and ?uuid2.0 = "''rt-third''"]
  have "fst (refreshTokens example_env 600 ''rt-third'' ''rt-alice'' ?s1) =
          Inl (UnauthorizedException ''Invalid or expired refresh token'')"
    by simp
  with ok fresh inv single show ?thesis by blast
qed

section \<open>The unique key of the follow requests is kept\<close>

lemma followRequests_create_keeps_unique:
  assumes "followRequests_unique s" and "followRequests_create req tgt s = Inr s'"
  shows "followRequests_unique s'"
proof -
  have no: "\<not> (\<exists>r \<in> set (followRequests s). followRequests_match req tgt r)"
    and s': "s' = s\<lparr>followRequests := followRequests s @
                    [\<lparr>fr_id = followRequests_seq s + 1, requesterId = req, targetId = tgt\<rparr>],
                  followRequests_seq := followRequests_seq s + 1\<rparr>"
    using assms(2) by (auto simp: followRequests_create_def split: if_splits)
  have "(req, tgt) \<notin> set (map (\<lambda>r. (requesterId r, targetId r)) (followRequests s))"
    using no by (auto simp: followRequests_match_def)
  then show ?thesis
    using assms(1) by (simp add: s' followRequests_unique_def)
qed

lemma followRequests_delete_keeps_unique:
  assumes "followRequests_unique s" and "followRequests_delete i s = Inr s'"
  shows "followRequests_unique s'"
proof -
  have s': "s' = s\<lparr>followRequests := filter (\<lambda>r. fr_id r \<noteq> i) (followRequests s)\<rparr>"
    using assms(2) by (auto simp: followRequests_delete_def split: if_splits)
  show ?thesis
    using assms(1) by (simp add: s' followRequests_unique_def distinct_map_filter)
qed

lemma follow_machine_keeps_unique:
  assumes "followRequests_unique s"
  shows "followRequests_unique (snd (requestToFollow t u s))"
    and "followRequests_unique (snd (acceptFollowRequest t u s))"
    and "followRequests_unique (snd (cancelFollowRequest u t s))"
    and "followRequests_unique (snd (unfollowUser t u s))"
proof -
  show "followRequests_unique (snd (requestToFollow t u s))"
    using assms followRequests_create_keeps_unique [OF assms, of u t]
    by (auto simp: requestToFollow_def requestToFollow_try_def catch_rethrow_def
        followers_create_def followRequests_unique_def
        split: option.splits sum.splits if_splits)
  show "followRequests_unique (snd (acceptFollowRequest t u s))"
    using assms
    by (auto simp: acceptFollowRequest_cases followRequests_unique_def distinct_map_filter
        split: option.splits)
  show "followRequests_unique (snd (cancelFollowRequest u t s))"
    using assms followRequests_delete_keeps_unique [OF assms]
    by (auto simp: cancelFollowRequest_def cancelFollowRequest_try_def catch_rethrow_def
        split: option.splits sum.splits)
  show "followRequests_unique (snd (unfollowUser t u s))"
    using assms
    by (simp add: unfollowUser_def unfollowUser_try_def catch_rethrow_def
        followers_deleteMany_def followRequests_unique_def)
qed

end
